theory Spec2Isabelle
  imports Complex_Main
begin

section \<open>Configuration constants\<close>

text \<open>
  The module constants of the scripts. \<open>acx-fix-v1.py\<close> and \<open>acx.py\<close> split at
  \<open>MAX_DURATION_MS\<close>; \<open>acx-fix-v1b.py\<close> splits at \<open>CHUNK_SIZE_MS\<close>, two seconds less.
  Durations are \<open>len(audio)\<close>, a non-negative number of milliseconds.
\<close>

definition MAX_DURATION_MS :: nat where
  "MAX_DURATION_MS = 120 * 60 * 1000"

definition MARGIN_MS :: nat where
  "MARGIN_MS = 2 * 1000"

definition CHUNK_SIZE_MS :: nat where
  "CHUNK_SIZE_MS = MAX_DURATION_MS - MARGIN_MS"

section \<open>Segmentation\<close>

text \<open>
  A slice \<open>audio[start:end]\<close> of a pydub segment of \<open>total_ms\<close> milliseconds is the
  range of milliseconds it holds: pydub clamps both bounds of a slice to the length of the
  segment. A chunk is represented by that range.
\<close>

definition slice_ms :: "nat \<Rightarrow> nat \<Rightarrow> nat \<Rightarrow> nat \<times> nat" where
  "slice_ms total_ms start end = (min start total_ms, min end total_ms)"

text \<open>
  \<open>split_into_chunks\<close> of \<open>acx-fix-v1.py\<close> and \<open>acx-fix-v1b.py\<close>, the module constant
  it divides by taken as the parameter \<open>c\<close> (positive in both scripts):
  \<^verbatim>\<open>
    count = math.ceil(total_ms / CHUNK_SIZE_MS)
    for i in range(count):
        start = i * CHUNK_SIZE_MS
        end   = min((i+1) * CHUNK_SIZE_MS, total_ms)
        yield audio[start:end]
  \<close>
  The quotient is taken over the reals: Python divides the two integers as floats, which
  agrees with the exact ceiling for every duration a decoded file can have.
\<close>

definition split_into_chunks :: "nat \<Rightarrow> nat \<Rightarrow> (nat \<times> nat) list" where
  "split_into_chunks c total_ms =
     (let count = nat \<lceil>real total_ms / real c\<rceil>
      in map (\<lambda>i. slice_ms total_ms (i * c) (min ((i + 1) * c) total_ms)) [0..<count])"

text \<open>
  \<open>range(i, stop, step)\<close> for a positive step, as the loop of \<open>acx.py\<close> walks it.
  Python refuses a zero step; the list is empty there.
\<close>

function range_step :: "nat \<Rightarrow> nat \<Rightarrow> nat \<Rightarrow> nat list" where
  "range_step i stop step =
     (if 0 < step \<and> i < stop then i # range_step (i + step) stop step else [])"
  by pat_completeness auto
termination
  by (relation "measure (\<lambda>(i, stop, step). stop - i)") auto

declare range_step.simps [simp del]

text \<open>
  The splitting branch of \<open>process_file\<close> in \<open>acx.py\<close>:
  \<^verbatim>\<open>
    segments = []
    if len(audio) > MAX_DURATION_MS:
        for i in range(0, len(audio), MAX_DURATION_MS):
            segments.append(audio[i : i + MAX_DURATION_MS])
    else:
        segments = [audio]
  \<close>
\<close>

definition split_segments :: "nat \<Rightarrow> nat \<Rightarrow> (nat \<times> nat) list" where
  "split_segments c total_ms =
     (if total_ms > c
      then map (\<lambda>i. slice_ms total_ms i (i + c)) (range_step 0 total_ms c)
      else [(0, total_ms)])"

text \<open>
  What the segmenter's contract asks of a list of segments: starting at \<open>a\<close>, each
  segment begins where the previous one ended, is non-empty, is at most \<open>c\<close> long, and
  the last one ends at \<open>d\<close>.
\<close>

fun tiles :: "nat \<Rightarrow> nat \<Rightarrow> nat \<Rightarrow> (nat \<times> nat) list \<Rightarrow> bool" where
  "tiles c a d [] = (a = d)"
| "tiles c a d ((s, e) # rest) = (s = a \<and> s < e \<and> e - s \<le> c \<and> e \<le> d \<and> tiles c e d rest)"

section \<open>Floats and audio segments\<close>

text \<open>
  A Python float as far as the gain computation reads it: the two infinities, NaN and the
  finite values. Finite arithmetic is taken over the reals (rounding of the last bit is
  not modelled); the special values follow IEEE 754 subtraction.
\<close>

datatype pyfloat = NegInf | Finite real | PosInf | NaN

fun float_sub :: "pyfloat \<Rightarrow> pyfloat \<Rightarrow> pyfloat" where
  "float_sub NaN _ = NaN"
| "float_sub _ NaN = NaN"
| "float_sub (Finite a) (Finite b) = Finite (a - b)"
| "float_sub (Finite a) NegInf = PosInf"
| "float_sub (Finite a) PosInf = NegInf"
| "float_sub PosInf PosInf = NaN"
| "float_sub PosInf _ = PosInf"
| "float_sub NegInf NegInf = NaN"
| "float_sub NegInf _ = NegInf"

definition TARGET_RMS_DBFS :: pyfloat where
  "TARGET_RMS_DBFS = Finite (- 20)"

text \<open>
  What the scripts read of a pydub \<open>AudioSegment\<close>: \<open>len(audio)\<close> in milliseconds,
  \<open>audio.channels\<close>, \<open>audio.dBFS\<close> (minus infinity for pure silence) and
  \<open>audio.raw_data\<close>.
\<close>

record AudioSegment =
  seg_len :: nat
  seg_channels :: nat
  seg_dBFS :: pyfloat
  seg_raw_data :: string

text \<open>One entry of \<open>meta\<close>, the dictionary \<open>analyze_directory\<close> builds per file.\<close>

record info =
  path :: string
  duration :: nat
  channels :: nat
  dBFS :: pyfloat
  md5 :: string

text \<open>
  The external collaborators, taken as parameters: the directory walk, the decoder (which
  may fail, and is called once in the scan and once more when a file is processed), the
  two pydub transformations, the digest of the raw bytes and \<open>os.path.relpath\<close>.
  The transformations, \<open>os.makedirs\<close> and the encoder are taken to succeed.
\<close>

datatype stage = Scan | Process

record env =
  os_walk :: "string \<Rightarrow> (string \<times> string list) list"
  from_file :: "stage \<Rightarrow> string \<Rightarrow> AudioSegment option"
  set_channels :: "AudioSegment \<Rightarrow> nat \<Rightarrow> AudioSegment"
  apply_gain :: "AudioSegment \<Rightarrow> pyfloat \<Rightarrow> AudioSegment"
  md5_hexdigest :: "string \<Rightarrow> string"
  relpath :: "string \<Rightarrow> string \<Rightarrow> string"

text \<open>
  A run is observed through the calls it makes, in order: the warning of the scan, the
  skip of a duplicate, the channel conversion, the gain handed to \<open>apply_gain\<close>, and
  each \<open>chunk.export\<close> with its output path, the audio it slices and the slice. An
  uncaught exception ends the run.
\<close>

datatype event =
    CouldNotOpen string
  | Skipped string
  | Channels string nat
  | Gain string pyfloat
  | Export string AudioSegment "nat \<times> nat"

datatype error = DecodeError string | StopIteration | SystemExit nat

section \<open>Strings and paths\<close>

text \<open>\<open>str.lower\<close> on ASCII letters and \<open>str.endswith\<close> with a tuple of suffixes.\<close>

definition lower_char :: "char \<Rightarrow> char" where
  "lower_char ch =
     (case map_of (zip ''ABCDEFGHIJKLMNOPQRSTUVWXYZ'' ''abcdefghijklmnopqrstuvwxyz'') ch of
        Some l \<Rightarrow> l
      | None \<Rightarrow> ch)"

definition lower :: "string \<Rightarrow> string" where
  "lower s = map lower_char s"

definition endswith :: "string \<Rightarrow> string \<Rightarrow> bool" where
  "endswith s suf = (length suf \<le> length s \<and> drop (length s - length suf) s = suf)"

definition SUPPORTED_EXTS :: "string list" where
  "SUPPORTED_EXTS = [''.mp3'', ''.wav'']"

text \<open>\<open>os.path.join\<close> of two components and \<open>os.path.splitext\<close>, as posixpath has them.\<close>

definition path_join :: "string \<Rightarrow> string \<Rightarrow> string" where
  "path_join a b =
     (if b \<noteq> [] \<and> hd b = CHR ''/'' then b
      else if a = [] \<or> last a = CHR ''/'' then a @ b
      else a @ ''/'' @ b)"

fun rfind_from :: "char \<Rightarrow> string \<Rightarrow> int \<Rightarrow> int \<Rightarrow> int" where
  "rfind_from ch [] i found = found"
| "rfind_from ch (x # xs) i found = rfind_from ch xs (i + 1) (if x = ch then i else found)"

definition rfind :: "char \<Rightarrow> string \<Rightarrow> int" where
  "rfind ch p = rfind_from ch p 0 (- 1)"

definition splitext :: "string \<Rightarrow> string \<times> string" where
  "splitext p =
     (let sepIndex = rfind (CHR ''/'') p;
          dotIndex = rfind (CHR ''.'') p
      in if dotIndex > sepIndex \<and>
            list_ex (\<lambda>k. p ! k \<noteq> CHR ''.'') [nat (sepIndex + 1)..<nat dotIndex]
         then (take (nat dotIndex) p, drop (nat dotIndex) p)
         else (p, []))"

text \<open>The decimal digits of \<open>idx\<close> in the f-string \<open>f"_part{idx}"\<close>.\<close>

fun str_of_nat :: "nat \<Rightarrow> string" where
  "str_of_nat n =
     (if n < 10 then [''0123456789'' ! n]
      else str_of_nat (n div 10) @ [''0123456789'' ! (n mod 10)])"

declare str_of_nat.simps [simp del]

section \<open>Scan, duplicates and channel policy\<close>

definition compute_md5 :: "env \<Rightarrow> AudioSegment \<Rightarrow> string" where
  "compute_md5 E audio = md5_hexdigest E (seg_raw_data audio)"

text \<open>
  \<open>analyze_directory\<close>: a file whose lower-cased name has no supported extension is
  passed over; a file the decoder refuses is reported and passed over.
\<close>

fun analyze_files :: "env \<Rightarrow> string \<Rightarrow> string list \<Rightarrow> info list \<times> event list" where
  "analyze_files E dirpath [] = ([], [])"
| "analyze_files E dirpath (fn # files) =
     (let (meta, warned) = analyze_files E dirpath files
      in if \<not> list_ex (endswith (lower fn)) SUPPORTED_EXTS then (meta, warned)
         else (let full = path_join dirpath fn
               in case from_file E Scan full of
                    None \<Rightarrow> (meta, CouldNotOpen full # warned)
                  | Some audio \<Rightarrow>
                      (\<lparr>path = full, duration = seg_len audio, channels = seg_channels audio,
                        dBFS = seg_dBFS audio, md5 = compute_md5 E audio\<rparr> # meta, warned)))"

fun analyze_walk :: "env \<Rightarrow> (string \<times> string list) list \<Rightarrow> info list \<times> event list" where
  "analyze_walk E [] = ([], [])"
| "analyze_walk E ((dirpath, files) # dirs) =
     (let (m1, w1) = analyze_files E dirpath files;
          (m2, w2) = analyze_walk E dirs
      in (m1 @ m2, w1 @ w2))"

definition analyze_directory :: "env \<Rightarrow> string \<Rightarrow> info list \<times> event list" where
  "analyze_directory E root_dir = analyze_walk E (os_walk E root_dir)"

text \<open>
  \<open>report_duplicates\<close>. The \<open>defaultdict(list)\<close> is an association list in insertion
  order, which is the order \<open>dups.values()\<close> iterates in.
\<close>

fun dups_append :: "(string \<times> string list) list \<Rightarrow> string \<Rightarrow> string \<Rightarrow> (string \<times> string list) list" where
  "dups_append [] k v = [(k, [v])]"
| "dups_append ((k', vs) # rest) k v =
     (if k' = k then (k', vs @ [v]) # rest else (k', vs) # dups_append rest k v)"

definition group_by_md5 :: "info list \<Rightarrow> (string \<times> string list) list" where
  "group_by_md5 meta = foldl (\<lambda>dups m. dups_append dups (md5 m) (path m)) [] meta"

definition report_duplicates :: "info list \<Rightarrow> string list list" where
  "report_duplicates meta = filter (\<lambda>grp. length grp > 1) (map snd (group_by_md5 meta))"

text \<open>
  The loop of the main block that fills \<open>skip_md5\<close>:
  \<^verbatim>\<open>
    for grp in dup_groups:
        # keep first, skip the rest
        for dup_path in grp[1:]:
            h = next(m["md5"] for m in meta if m["path"] == dup_path)
            skip_md5.add(h)
  \<close>
\<close>

fun skip_paths :: "info list \<Rightarrow> string set \<Rightarrow> string list \<Rightarrow> error + string set" where
  "skip_paths meta skip_md5 [] = Inr skip_md5"
| "skip_paths meta skip_md5 (dup_path # ps) =
     (case find (\<lambda>m. path m = dup_path) meta of
        None \<Rightarrow> Inl StopIteration
      | Some m \<Rightarrow> skip_paths meta (insert (md5 m) skip_md5) ps)"

fun skip_groups :: "info list \<Rightarrow> string set \<Rightarrow> string list list \<Rightarrow> error + string set" where
  "skip_groups meta skip_md5 [] = Inr skip_md5"
| "skip_groups meta skip_md5 (grp # grps) =
     (case skip_paths meta skip_md5 (tl grp) of
        Inl e \<Rightarrow> Inl e
      | Inr skip_md5' \<Rightarrow> skip_groups meta skip_md5' grps)"

definition decide_target_channels :: "info list \<Rightarrow> nat" where
  "decide_target_channels meta = (if list_ex (\<lambda>m. channels m > 1) meta then 2 else 1)"

text \<open>The records \<open>process_file\<close> does not return early on: those it goes on to decode.\<close>

definition survivors :: "string set \<Rightarrow> info list \<Rightarrow> info list" where
  "survivors skip_md5 meta = filter (\<lambda>m. md5 m \<notin> skip_md5) meta"

section \<open>Processing one file and the whole batch\<close>

text \<open>
  The export loop of \<open>process_file\<close>, \<open>n\<close> being \<open>len(chunks)\<close> and \<open>idx\<close> the
  counter of \<open>enumerate(chunks, start=1)\<close>.
\<close>

definition out_path_of :: "string \<Rightarrow> string \<Rightarrow> nat \<Rightarrow> nat \<Rightarrow> string" where
  "out_path_of output_root base n idx =
     (let suffix = (if n > 1 then ''_part'' @ str_of_nat idx else [])
      in path_join output_root (base @ suffix @ ''.mp3''))"

fun export_chunks :: "string \<Rightarrow> string \<Rightarrow> AudioSegment \<Rightarrow> nat \<Rightarrow> nat \<Rightarrow> (nat \<times> nat) list \<Rightarrow> event list" where
  "export_chunks output_root base audio n idx [] = []"
| "export_chunks output_root base audio n idx (chunk # chunks) =
     Export (out_path_of output_root base n idx) audio chunk
       # export_chunks output_root base audio n (idx + 1) chunks"

text \<open>
  \<open>process_file\<close> of \<open>acx-fix-v1.py\<close> and \<open>acx-fix-v1b.py\<close> (\<open>c\<close> is the constant
  \<open>split_into_chunks\<close> divides by), with its first two steps named: the channel
  conversion and the gain \<open>TARGET_RMS_DBFS - audio.dBFS\<close>, measured after the
  conversion. The decoder is called with no handler around it: its failure ends the run.
\<close>

definition convert_channels :: "env \<Rightarrow> AudioSegment \<Rightarrow> nat \<Rightarrow> AudioSegment" where
  "convert_channels E audio target_ch =
     (if seg_channels audio \<noteq> target_ch then set_channels E audio target_ch else audio)"

definition gain_for :: "AudioSegment \<Rightarrow> pyfloat" where
  "gain_for audio = float_sub TARGET_RMS_DBFS (seg_dBFS audio)"

definition process_file ::
  "env \<Rightarrow> nat \<Rightarrow> info \<Rightarrow> nat \<Rightarrow> string set \<Rightarrow> string \<Rightarrow> string \<Rightarrow> event list \<times> error option" where
  "process_file E c info target_ch skip_md5 input_root output_root =
     (let src = path info
      in if md5 info \<in> skip_md5 then ([Skipped src], None)
         else case from_file E Process src of
                None \<Rightarrow> ([], Some (DecodeError src))
              | Some audio0 \<Rightarrow>
                  (let audio1 = convert_channels E audio0 target_ch;
                       gain = gain_for audio1;
                       audio2 = apply_gain E audio1 gain;
                       chunks = split_into_chunks c (seg_len audio2);
                       rel = relpath E src input_root;
                       base = fst (splitext rel)
                   in ((if seg_channels audio0 \<noteq> target_ch then [Channels src target_ch] else [])
                         @ [Gain src gain]
                         @ export_chunks output_root base audio2 (length chunks) 1 chunks,
                       None)))"

text \<open>The audio \<open>process_file\<close> slices and exports: converted, then gained.\<close>

definition processed :: "env \<Rightarrow> AudioSegment \<Rightarrow> nat \<Rightarrow> AudioSegment" where
  "processed E audio0 target_ch =
     apply_gain E (convert_channels E audio0 target_ch)
       (gain_for (convert_channels E audio0 target_ch))"

fun process_all ::
  "env \<Rightarrow> nat \<Rightarrow> nat \<Rightarrow> string set \<Rightarrow> string \<Rightarrow> string \<Rightarrow> info list \<Rightarrow> event list \<times> error option" where
  "process_all E c target_ch skip_md5 input_root output_root [] = ([], None)"
| "process_all E c target_ch skip_md5 input_root output_root (info # rest) =
     (case process_file E c info target_ch skip_md5 input_root output_root of
        (evs, Some e) \<Rightarrow> (evs, Some e)
      | (evs, None) \<Rightarrow>
          (let (evs', r) = process_all E c target_ch skip_md5 input_root output_root rest
           in (evs @ evs', r)))"

text \<open>The main block after the scan, and the whole main block.\<close>

definition process_batch ::
  "env \<Rightarrow> nat \<Rightarrow> info list \<Rightarrow> string \<Rightarrow> string \<Rightarrow> event list \<times> error option" where
  "process_batch E c meta input_root output_root =
     (let dup_groups = report_duplicates meta
      in case skip_groups meta {} dup_groups of
           Inl e \<Rightarrow> ([], Some e)
         | Inr skip_md5 \<Rightarrow>
             (let tgt_ch = decide_target_channels meta
              in process_all E c tgt_ch skip_md5 input_root output_root meta))"

definition main :: "env \<Rightarrow> nat \<Rightarrow> string \<Rightarrow> string \<Rightarrow> event list \<times> error option" where
  "main E c input_root output_root =
     (let (meta, warned) = analyze_directory E input_root
      in if meta = [] then (warned, Some (SystemExit 1))
         else (let (evs, r) = process_batch E c meta input_root output_root
               in (warned @ evs, r)))"

text \<open>What a trace leaves at a path: the audio and slice of the last export to it.\<close>

fun exports_to :: "string \<Rightarrow> event list \<Rightarrow> (AudioSegment \<times> (nat \<times> nat)) list" where
  "exports_to p [] = []"
| "exports_to p (Export q audio chunk # evs) =
     (if q = p then (audio, chunk) # exports_to p evs else exports_to p evs)"
| "exports_to p (_ # evs) = exports_to p evs"

definition final_file :: "event list \<Rightarrow> string \<Rightarrow> (AudioSegment \<times> (nat \<times> nat)) option" where
  "final_file evs p = (case exports_to p evs of [] \<Rightarrow> None | xs \<Rightarrow> Some (last xs))"

fun export_path :: "event \<Rightarrow> string option" where
  "export_path (Export q _ _) = Some q"
| "export_path _ = None"

definition exported_paths :: "event list \<Rightarrow> string list" where
  "exported_paths evs = List.map_filter export_path evs"

section \<open>Example inputs\<close>

text \<open>
  A small stand-in for pydub and the file system, for running the pipeline on concrete
  batches: the walk and the decoder are given, a channel conversion sets the channel
  count, a finite gain shifts a finite loudness, the digest of the raw bytes is the bytes
  themselves, and the relative path drops the root and its separator.
\<close>

definition example_env ::
  "(string \<times> string list) list \<Rightarrow> (stage \<Rightarrow> string \<Rightarrow> AudioSegment option) \<Rightarrow> env" where
  "example_env walked dec =
     \<lparr>os_walk = (\<lambda>_. walked),
      from_file = dec,
      set_channels = (\<lambda>a n. a\<lparr>seg_channels := n\<rparr>),
      apply_gain = (\<lambda>a g. case (seg_dBFS a, g) of
                             (Finite x, Finite y) \<Rightarrow> a\<lparr>seg_dBFS := Finite (x + y)\<rparr>
                           | _ \<Rightarrow> a),
      md5_hexdigest = (\<lambda>b. b),
      relpath = (\<lambda>src root. drop (length root + 1) src)\<rparr>"

text \<open>Three byte-identical recordings under different names.\<close>

definition triple_meta :: "info list" where
  "triple_meta =
     [\<lparr>path = ''in/a.mp3'', duration = 60000, channels = 1, dBFS = Finite (- 30), md5 = ''d1''\<rparr>,
      \<lparr>path = ''in/b.mp3'', duration = 60000, channels = 1, dBFS = Finite (- 30), md5 = ''d1''\<rparr>,
      \<lparr>path = ''in/c.mp3'', duration = 60000, channels = 1, dBFS = Finite (- 30), md5 = ''d1''\<rparr>]"

text \<open>
  A mono file, and two files with the same raw bytes of which the first is read as mono
  and the second as stereo.
\<close>

definition channel_meta :: "info list" where
  "channel_meta =
     [\<lparr>path = ''in/a.mp3'', duration = 60000, channels = 1, dBFS = Finite (- 30), md5 = ''d1''\<rparr>,
      \<lparr>path = ''in/b.mp3'', duration = 60000, channels = 1, dBFS = Finite (- 25), md5 = ''d2''\<rparr>,
      \<lparr>path = ''in/c.wav'', duration = 30000, channels = 2, dBFS = Finite (- 25), md5 = ''d2''\<rparr>]"

text \<open>Decoded recordings the example directories hold.\<close>

definition take_a :: AudioSegment where
  "take_a = \<lparr>seg_len = 60000, seg_channels = 1, seg_dBFS = Finite (- 30), seg_raw_data = ''aaaa''\<rparr>"

definition take_b :: AudioSegment where
  "take_b = \<lparr>seg_len = 30000, seg_channels = 1, seg_dBFS = Finite (- 25), seg_raw_data = ''bbbb''\<rparr>"

definition silence :: AudioSegment where
  "silence = \<lparr>seg_len = 60000, seg_channels = 1, seg_dBFS = NegInf, seg_raw_data = ''0000''\<rparr>"

definition book_long :: AudioSegment where
  "book_long = \<lparr>seg_len = 9000000, seg_channels = 2, seg_dBFS = Finite (- 15), seg_raw_data = ''llll''\<rparr>"

definition book_short :: AudioSegment where
  "book_short = \<lparr>seg_len = 1800000, seg_channels = 2, seg_dBFS = Finite (- 20), seg_raw_data = ''ssss''\<rparr>"

text \<open>Two files that decode during the scan; the first can no longer be decoded afterwards.\<close>

definition vanishing_env :: env where
  "vanishing_env =
     example_env [(''in'', [''a.mp3'', ''b.mp3''])]
       (\<lambda>st p.
          if p = ''in/a.mp3'' then (if st = Scan then Some take_a else None)
          else if p = ''in/b.mp3'' then Some take_b
          else None)"

text \<open>Two different recordings whose names differ in the extension only.\<close>

definition colliding_env :: env where
  "colliding_env =
     example_env [(''in'', [''a.mp3'', ''a.wav''])]
       (\<lambda>st p.
          if p = ''in/a.mp3'' then Some take_a
          else if p = ''in/a.wav'' then Some take_b
          else None)"

text \<open>One file of pure silence.\<close>

definition silent_env :: env where
  "silent_env =
     example_env [(''in'', [''s.wav''])]
       (\<lambda>st p. if p = ''in/s.wav'' then Some silence else None)"

text \<open>
  A file of 150 minutes, a file of 30 minutes that is already at the target loudness, and
  a file that is not audio.
\<close>

definition book_env :: env where
  "book_env =
     example_env [(''in/book'', [''long.WAV'', ''short.mp3'', ''notes.txt''])]
       (\<lambda>st p.
          if p = ''in/book/long.WAV'' then Some book_long
          else if p = ''in/book/short.mp3'' then Some book_short
          else None)"

text \<open>The entry of \<open>meta\<close> the scan makes of a decoded file.\<close>

definition info_of :: "env \<Rightarrow> string \<Rightarrow> AudioSegment \<Rightarrow> info" where
  "info_of E full audio =
     \<lparr>path = full, duration = seg_len audio, channels = seg_channels audio,
      dBFS = seg_dBFS audio, md5 = compute_md5 E audio\<rparr>"

section \<open>Properties of the segmentation\<close>

text \<open>The chunk count \<open>n\<close> is the least number of chunks of \<open>c\<close> that reach \<open>d\<close>.\<close>

lemma ceil_count_bounds:
  assumes "0 < c" "0 < d"
  defines "n \<equiv> nat \<lceil>real d / real c\<rceil>"
  shows "0 < n" and "(n - 1) * c < d" and "d \<le> n * c"
proof -
  let ?x = "real d / real c"
  have xpos: "0 < ?x" using assms by simp
  then have cpos: "0 < \<lceil>?x\<rceil>" by simp
  then show npos: "0 < n" by (simp add: n_def)
  have rn: "real n = of_int \<lceil>?x\<rceil>" using cpos by (simp add: n_def)
  have up: "?x \<le> real n" unfolding rn by (rule le_of_int_ceiling)
  then have "real d \<le> real n * real c" using assms(1) by (simp add: pos_divide_le_eq)
  then have "real d \<le> real (n * c)" by simp
  then show "d \<le> n * c" by (simp only: of_nat_le_iff)
  have "of_int \<lceil>?x\<rceil> - 1 < ?x" by linarith
  then have "real n - 1 < ?x" unfolding rn .
  then have "(real n - 1) * real c < real d" using assms(1) by (simp add: pos_less_divide_eq)
  moreover have "real n - 1 = real (n - 1)" using npos by (simp add: of_nat_diff)
  ultimately have "real (n - 1) * real c < real d" by (simp only:)
  then have "real ((n - 1) * c) < real d" by (simp only: of_nat_mult)
  then show "(n - 1) * c < d" by (simp only: of_nat_less_iff)
qed

lemma below_last_multiple:
  assumes "(n - 1) * c < d" "i < n"
  shows "i * c < (d::nat)"
proof -
  have "i \<le> n - 1" using assms(2) by simp
  then have "i * c \<le> (n - 1) * c" by (rule mult_le_mono1)
  then show ?thesis using assms(1) by (rule le_less_trans)
qed

lemma range_step_mult:
  assumes "0 < c" "(n - 1) * c < d" "d \<le> n * c" "0 < n" "k \<le> n"
  shows "range_step (k * c) d c = map (\<lambda>i. i * c) [k..<n]"
  using assms(5)
proof (induction "n - k" arbitrary: k)
  case 0
  then have "k = n" by simp
  have "\<not> n * c < d" using assms(3) by simp
  then have "range_step (n * c) d c = []" by (subst range_step.simps) simp
  then show ?case using \<open>k = n\<close> by simp
next
  case (Suc m)
  then have kn: "k < n" by simp
  have lt: "k * c < d" using assms(2) kn by (rule below_last_multiple)
  have "m = n - Suc k" using Suc.hyps(2) by simp
  moreover have "Suc k \<le> n" using kn by simp
  ultimately have IH: "range_step (Suc k * c) d c = map (\<lambda>i. i * c) [Suc k..<n]"
    by (rule Suc.hyps(1))
  have "range_step (k * c) d c = k * c # range_step (k * c + c) d c"
    using lt assms(1) by (subst range_step.simps) simp
  also have "k * c + c = Suc k * c" by simp
  finally have step: "range_step (k * c) d c = k * c # range_step (Suc k * c) d c" .
  have "[k..<n] = k # [Suc k..<n]" using kn by (rule upt_conv_Cons)
  then show ?case by (simp only: step IH list.map)
qed

lemma split_into_chunks_bounds:
  assumes "0 < c" "0 < d"
  obtains n where "0 < n" "(n - 1) * c < d" "d \<le> n * c"
    "split_into_chunks c d = map (\<lambda>i. (i * c, min (Suc i * c) d)) [0..<n]"
proof -
  define n where "n = nat \<lceil>real d / real c\<rceil>"
  have n: "0 < n" unfolding n_def using assms by (rule ceil_count_bounds(1))
  have lo: "(n - 1) * c < d" unfolding n_def using assms by (rule ceil_count_bounds(2))
  have hi: "d \<le> n * c" unfolding n_def using assms by (rule ceil_count_bounds(3))
  have "slice_ms d (i * c) (min ((i + 1) * c) d) = (i * c, min (Suc i * c) d)"
    if "i \<in> set [0..<n]" for i
  proof -
    have "i < n" using that by simp
    with lo have "i * c < d" by (rule below_last_multiple)
    then show ?thesis by (simp add: slice_ms_def min_def)
  qed
  then have "map (\<lambda>i. slice_ms d (i * c) (min ((i + 1) * c) d)) [0..<n] =
      map (\<lambda>i. (i * c, min (Suc i * c) d)) [0..<n]"
    by (intro map_cong refl)
  then have "split_into_chunks c d = map (\<lambda>i. (i * c, min (Suc i * c) d)) [0..<n]"
    unfolding split_into_chunks_def Let_def n_def .
  with n lo hi show thesis by (rule that)
qed

lemma tiles_from:
  assumes "0 < c" "(n - 1) * c < d" "d \<le> n * c" "k < n"
  shows "tiles c (k * c) d (map (\<lambda>i. (i * c, min (Suc i * c) d)) [k..<n])"
  using assms(4)
proof (induction "n - k" arbitrary: k)
  case 0
  then show ?case by simp
next
  case (Suc m)
  have kn: "k < n" by (rule Suc.prems)
  have lt: "k * c < d" using assms(2) kn by (rule below_last_multiple)
  have up: "[k..<n] = k # [Suc k..<n]" using kn by (rule upt_conv_Cons)
  show ?case
  proof (cases "Suc k < n")
    case True
    have "m = n - Suc k" using Suc.hyps(2) by simp
    then have IH: "tiles c (Suc k * c) d (map (\<lambda>i. (i * c, min (Suc i * c) d)) [Suc k..<n])"
      using True by (rule Suc.hyps(1))
    have "Suc k * c < d" using assms(2) True by (rule below_last_multiple)
    then have le: "Suc k * c \<le> d" and e: "min (Suc k * c) d = Suc k * c" by simp_all
    show ?thesis
      unfolding up list.map tiles.simps e using IH assms(1) le by simp
  next
    case False
    then have "n = Suc k" using kn by simp
    then have hi: "d \<le> k * c + c" and e: "min (Suc k * c) d = d" and nil: "[Suc k..<n] = []"
      using assms(3) by simp_all
    show ?thesis
      unfolding up list.map tiles.simps e nil using hi lt by simp
  qed
qed

lemma split_tiles:
  assumes "0 < c"
  shows "tiles c 0 d (split_into_chunks c d)"
proof (cases "d = 0")
  case True
  then show ?thesis by (simp add: split_into_chunks_def)
next
  case False
  then have d: "0 < d" by simp
  from assms d obtain n where n: "0 < n" "(n - 1) * c < d" "d \<le> n * c"
    and eq: "split_into_chunks c d = map (\<lambda>i. (i * c, min (Suc i * c) d)) [0..<n]"
    by (rule split_into_chunks_bounds)
  have "tiles c (0 * c) d (map (\<lambda>i. (i * c, min (Suc i * c) d)) [0..<n])"
    using assms n(2,3,1) by (rule tiles_from)
  then show ?thesis unfolding eq by simp
qed

lemma split_last_end:
  assumes "0 < c" "0 < d"
  shows "split_into_chunks c d \<noteq> [] \<and> snd (last (split_into_chunks c d)) = d"
proof -
  from assms obtain n where n: "0 < n" "(n - 1) * c < d" "d \<le> n * c"
    and eq: "split_into_chunks c d = map (\<lambda>i. (i * c, min (Suc i * c) d)) [0..<n]"
    by (rule split_into_chunks_bounds)
  have ne: "[0..<n] \<noteq> []" using n(1) by simp
  have l: "last [0..<n] = n - 1" using n(1) by simp
  have sn: "Suc (n - 1) = n" using n(1) by simp
  have "last (map (\<lambda>i. (i * c, min (Suc i * c) d)) [0..<n]) =
      ((n - 1) * c, min (Suc (n - 1) * c) d)"
    by (simp add: last_map[OF ne] l)
  then have "snd (last (map (\<lambda>i. (i * c, min (Suc i * c) d)) [0..<n])) = min (n * c) d"
    by (simp only: snd_conv sn)
  also have "min (n * c) d = d" using n(3) by simp
  finally show ?thesis unfolding eq using ne by simp
qed

lemma split_single:
  assumes "0 < d" "d \<le> c"
  shows "split_into_chunks c d = [(0, d)]"
proof -
  have c: "0 < c" using assms by simp
  from c assms(1) obtain n where n: "0 < n" "(n - 1) * c < d" "d \<le> n * c"
    and eq: "split_into_chunks c d = map (\<lambda>i. (i * c, min (Suc i * c) d)) [0..<n]"
    by (rule split_into_chunks_bounds)
  have "n - 1 = 0"
  proof (rule ccontr)
    assume "n - 1 \<noteq> 0"
    then have "1 \<le> n - 1" by simp
    then have "1 * c \<le> (n - 1) * c" by (rule mult_le_mono1)
    then have "1 * c < d" using n(2) by (rule le_less_trans)
    then show False using assms(2) by simp
  qed
  then have "n = 1" using n(1) by simp
  then show ?thesis unfolding eq using assms(2) by simp
qed

lemma split_zero: "split_into_chunks c 0 = []"
  by (simp add: split_into_chunks_def)

lemma split_equiv:
  assumes "0 < d" "0 < c"
  shows "split_into_chunks c d = split_segments c d"
proof (cases "d \<le> c")
  case True
  then show ?thesis using split_single[OF assms(1)] by (simp add: split_segments_def)
next
  case False
  from assms(2,1) obtain n where n: "0 < n" "(n - 1) * c < d" "d \<le> n * c"
    and eq: "split_into_chunks c d = map (\<lambda>i. (i * c, min (Suc i * c) d)) [0..<n]"
    by (rule split_into_chunks_bounds)
  have "range_step (0 * c) d c = map (\<lambda>i. i * c) [0..<n]"
    using assms(2) n(2,3,1) by (rule range_step_mult) simp
  then have r: "range_step 0 d c = map (\<lambda>i. i * c) [0..<n]" by simp
  have "slice_ms d (i * c) (i * c + c) = (i * c, min (Suc i * c) d)"
    if "i \<in> set [0..<n]" for i
  proof -
    have "i < n" using that by simp
    with n(2) have "i * c < d" by (rule below_last_multiple)
    then show ?thesis by (simp add: slice_ms_def min_def add.commute)
  qed
  then have m: "map (\<lambda>i. slice_ms d (i * c) (i * c + c)) [0..<n] =
      map (\<lambda>i. (i * c, min (Suc i * c) d)) [0..<n]"
    by (intro map_cong refl)
  have "split_segments c d = map (\<lambda>i. slice_ms d (i * c) (i * c + c)) [0..<n]"
    using False by (simp add: split_segments_def r comp_def)
  then show ?thesis unfolding eq m by simp
qed

section \<open>Properties of the pipeline\<close>


lemma process_file_skipped:
  assumes "md5 info \<in> skip_md5"
  shows "process_file E c info target_ch skip_md5 input_root output_root =
           ([Skipped (path info)], None)"
  using assms by (simp add: process_file_def)

lemma process_file_undecodable:
  assumes "md5 info \<notin> skip_md5" "from_file E Process (path info) = None"
  shows "process_file E c info target_ch skip_md5 input_root output_root =
           ([], Some (DecodeError (path info)))"
  using assms by (simp add: process_file_def)

lemma process_file_decoded:
  assumes "md5 info \<notin> skip_md5" "from_file E Process (path info) = Some audio0"
  shows "process_file E c info target_ch skip_md5 input_root output_root =
           ((if seg_channels audio0 \<noteq> target_ch then [Channels (path info) target_ch] else [])
              @ [Gain (path info) (gain_for (convert_channels E audio0 target_ch))]
              @ export_chunks output_root (fst (splitext (relpath E (path info) input_root)))
                  (processed E audio0 target_ch)
                  (length (split_into_chunks c (seg_len (processed E audio0 target_ch))))
                  1
                  (split_into_chunks c (seg_len (processed E audio0 target_ch))),
            None)"
  using assms by (simp add: process_file_def processed_def Let_def)

lemma exported_paths_append:
  "exported_paths (xs @ ys) = exported_paths xs @ exported_paths ys"
  by (simp add: exported_paths_def List.map_filter_def)

lemma exported_paths_export_chunks:
  "exported_paths (export_chunks output_root base audio n idx chunks) =
     map (out_path_of output_root base n) [idx..<idx + length chunks]"
proof (induction chunks arbitrary: idx)
  case Nil
  then show ?case by (simp add: exported_paths_def List.map_filter_def)
next
  case (Cons chunk chunks)
  have "[idx..<idx + Suc (length chunks)] = idx # [Suc idx..<idx + Suc (length chunks)]"
    by (rule upt_conv_Cons) simp
  moreover have "exported_paths (export_chunks output_root base audio n (idx + 1) chunks) =
      map (out_path_of output_root base n) [Suc idx..<Suc idx + length chunks]"
    using Cons.IH[of "Suc idx"] by simp
  ultimately show ?case
    by (simp add: exported_paths_def List.map_filter_def)
qed

lemma process_all_two:
  assumes "process_file E c m1 t skip i out = (ev1, None)"
    and "process_file E c m2 t skip i out = (ev2, r)"
  shows "process_all E c t skip i out [m1, m2] = (ev1 @ ev2, r)"
  using assms by (cases r) simp_all


lemma dups_append_keys:
  assumes "distinct ks"
  shows "dups_append (map (\<lambda>d. (d, f d)) ks) k v =
           (if k \<in> set ks then map (\<lambda>d. (d, if d = k then f d @ [v] else f d)) ks
            else map (\<lambda>d. (d, f d)) ks @ [(k, [v])])"
  using assms
proof (induction ks)
  case Nil
  then show ?case by simp
next
  case (Cons a ks)
  show ?case
  proof (cases "a = k")
    case True
    then have "k \<notin> set ks" using Cons.prems by simp
    then have "map (\<lambda>d. (d, if d = k then f d @ [v] else f d)) ks = map (\<lambda>d. (d, f d)) ks"
      by (intro map_cong refl) auto
    then show ?thesis using True by simp
  next
    case False
    then show ?thesis using Cons by simp
  qed
qed

lemma group_by_md5_closed:
  "group_by_md5 meta =
     map (\<lambda>d. (d, map path (filter (\<lambda>m. md5 m = d) meta))) (rev (remdups (rev (map md5 meta))))"
proof (induction meta rule: rev_induct)
  case Nil
  then show ?case by (simp add: group_by_md5_def)
next
  case (snoc m xs)
  let ?K = "rev (remdups (rev (map md5 xs)))"
  let ?P = "\<lambda>ys d. map path (filter (\<lambda>m. md5 m = d) ys)"
  have dist: "distinct ?K" by simp
  have setK: "set ?K = md5 ` set xs" by simp
  have step: "group_by_md5 (xs @ [m]) = dups_append (group_by_md5 xs) (md5 m) (path m)"
    by (simp add: group_by_md5_def)
  have IH: "group_by_md5 xs = map (\<lambda>d. (d, ?P xs d)) ?K" by (rule snoc.IH)
  show ?case
  proof (cases "md5 m \<in> md5 ` set xs")
    case True
    have K': "rev (remdups (rev (map md5 (xs @ [m])))) = ?K" using True by simp
    have "dups_append (map (\<lambda>d. (d, ?P xs d)) ?K) (md5 m) (path m) =
        map (\<lambda>d. (d, if d = md5 m then ?P xs d @ [path m] else ?P xs d)) ?K"
      using True setK by (simp only: dups_append_keys[OF dist] if_True)
    also have "\<dots> = map (\<lambda>d. (d, ?P (xs @ [m]) d)) ?K"
      by (intro map_cong refl) auto
    finally show ?thesis unfolding step IH K' .
  next
    case False
    have K': "rev (remdups (rev (map md5 (xs @ [m])))) = ?K @ [md5 m]" using False by simp
    have "\<forall>x\<in>set xs. md5 x \<noteq> md5 m" using False by (metis imageI)
    then have none: "filter (\<lambda>x. md5 x = md5 m) xs = []"
      by (simp add: filter_empty_conv)
    have A: "dups_append (map (\<lambda>d. (d, ?P xs d)) ?K) (md5 m) (path m) =
        map (\<lambda>d. (d, ?P xs d)) ?K @ [(md5 m, [path m])]"
      using False setK by (simp only: dups_append_keys[OF dist] if_False)
    have B: "map (\<lambda>d. (d, ?P (xs @ [m]) d)) ?K = map (\<lambda>d. (d, ?P xs d)) ?K"
      using False by (intro map_cong refl) auto
    have C: "?P (xs @ [m]) (md5 m) = [path m]"
      using none by simp
    have "map (\<lambda>d. (d, ?P (xs @ [m]) d)) (?K @ [md5 m]) =
        map (\<lambda>d. (d, ?P xs d)) ?K @ [(md5 m, [path m])]"
      by (simp only: map_append list.map B C)
    then show ?thesis unfolding step IH K' A by (rule sym)
  qed
qed

lemma report_duplicates_closed:
  "report_duplicates meta =
     filter (\<lambda>grp. 1 < length grp)
       (map (\<lambda>d. map path (filter (\<lambda>m. md5 m = d) meta)) (rev (remdups (rev (map md5 meta)))))"
  by (simp add: report_duplicates_def group_by_md5_closed comp_def)

lemma exports_to_append: "exports_to p (xs @ ys) = exports_to p xs @ exports_to p ys"
  by (induction p xs rule: exports_to.induct) simp_all

lemma final_file_append:
  "final_file (xs @ ys) p = (if exports_to p ys = [] then final_file xs p else final_file ys p)"
  by (cases "exports_to p ys"; cases "exports_to p xs")
     (simp_all add: final_file_def exports_to_append)

lemma exports_to_export_chunks:
  "exports_to p (export_chunks output_root base audio n idx chunks) =
     map (\<lambda>(k, chunk). (audio, chunk))
       (filter (\<lambda>(k, chunk). out_path_of output_root base n k = p)
          (zip [idx..<idx + length chunks] chunks))"
proof (induction chunks arbitrary: idx)
  case Nil
  then show ?case by simp
next
  case (Cons chunk chunks)
  have "[idx..<idx + Suc (length chunks)] = idx # [Suc idx..<idx + Suc (length chunks)]"
    by (rule upt_conv_Cons) simp
  then show ?case using Cons.IH[of "Suc idx"] by simp
qed


lemma exported_paths_Cons:
  "exported_paths (ev # evs) =
     (case export_path ev of None \<Rightarrow> exported_paths evs | Some q \<Rightarrow> q # exported_paths evs)"
  by (cases "export_path ev") (simp_all add: exported_paths_def List.map_filter_def)

lemma exports_to_nonempty:
  assumes "p \<in> set (exported_paths evs)"
  shows "exports_to p evs \<noteq> []"
  using assms
proof (induction evs)
  case Nil
  then show ?case by (simp add: exported_paths_def List.map_filter_def)
next
  case (Cons ev evs)
  then show ?case by (cases ev) (auto simp: exported_paths_Cons)
qed

lemma process_file_exported_paths:
  assumes "md5 info \<notin> skip_md5" "from_file E Process (path info) = Some audio0"
  shows "exported_paths (fst (process_file E c info target_ch skip_md5 input_root output_root)) =
           map (out_path_of output_root (fst (splitext (relpath E (path info) input_root)))
                  (length (split_into_chunks c (seg_len (processed E audio0 target_ch)))))
             [1..<1 + length (split_into_chunks c (seg_len (processed E audio0 target_ch)))]"
proof -
  have "exported_paths [Channels (path info) target_ch] = []"
    and "exported_paths [Gain (path info) g] = []" for g
    by (simp_all add: exported_paths_def List.map_filter_def)
  then show ?thesis
    unfolding process_file_decoded[OF assms] fst_conv exported_paths_append
      exported_paths_export_chunks
    by (simp add: exported_paths_def List.map_filter_def)
qed

lemma process_file_decoded_ok:
  assumes "md5 info \<notin> skip_md5" "from_file E Process (path info) = Some audio0"
  shows "process_file E c info target_ch skip_md5 input_root output_root =
           (fst (process_file E c info target_ch skip_md5 input_root output_root), None)"
  unfolding process_file_decoded[OF assms] by simp

section \<open>Runs of the example inputs\<close>

lemma chunk_size_pos: "0 < CHUNK_SIZE_MS"
  by (simp add: CHUNK_SIZE_MS_def MAX_DURATION_MS_def MARGIN_MS_def)

lemma colliding_scan:
  "analyze_directory colliding_env ''in'' =
     ([info_of colliding_env ''in/a.mp3'' take_a, info_of colliding_env ''in/a.wav'' take_b], [])"
  by (simp add: colliding_env_def analyze_directory_def example_env_def info_of_def
      compute_md5_def SUPPORTED_EXTS_def endswith_def lower_def lower_char_def path_join_def
      Let_def)

lemma colliding_decoded:
  "from_file colliding_env Process (path (info_of colliding_env ''in/a.mp3'' take_a)) = Some take_a"
  "from_file colliding_env Process (path (info_of colliding_env ''in/a.wav'' take_b)) = Some take_b"
  by (simp_all add: colliding_env_def example_env_def info_of_def)

lemma colliding_processed:
  "processed colliding_env take_a 1 = take_a\<lparr>seg_dBFS := Finite (- 20)\<rparr>"
  "processed colliding_env take_b 1 = take_b\<lparr>seg_dBFS := Finite (- 20)\<rparr>"
  by (simp_all add: processed_def colliding_env_def example_env_def convert_channels_def
      gain_for_def TARGET_RMS_DBFS_def take_a_def take_b_def)

lemma colliding_gain:
  "gain_for (convert_channels colliding_env take_a 1) = Finite 10"
  "gain_for (convert_channels colliding_env take_b 1) = Finite 5"
  by (simp_all add: convert_channels_def gain_for_def TARGET_RMS_DBFS_def take_a_def take_b_def)

lemma colliding_chunks:
  "split_into_chunks CHUNK_SIZE_MS (seg_len (take_a\<lparr>seg_dBFS := Finite (- 20)\<rparr>)) = [(0, 60000)]"
  "split_into_chunks CHUNK_SIZE_MS (seg_len (take_b\<lparr>seg_dBFS := Finite (- 20)\<rparr>)) = [(0, 30000)]"
proof -
  have l1: "60000 \<le> CHUNK_SIZE_MS" and l2: "30000 \<le> CHUNK_SIZE_MS"
    by (simp_all add: CHUNK_SIZE_MS_def MAX_DURATION_MS_def MARGIN_MS_def)
  show "split_into_chunks CHUNK_SIZE_MS (seg_len (take_a\<lparr>seg_dBFS := Finite (- 20)\<rparr>)) =
      [(0, 60000)]"
    using split_single[of 60000 CHUNK_SIZE_MS] l1 by (simp add: take_a_def)
  show "split_into_chunks CHUNK_SIZE_MS (seg_len (take_b\<lparr>seg_dBFS := Finite (- 20)\<rparr>)) =
      [(0, 30000)]"
    using split_single[of 30000 CHUNK_SIZE_MS] l2 by (simp add: take_b_def)
qed

lemma colliding_base:
  "splitext (relpath colliding_env (path (info_of colliding_env ''in/a.mp3'' take_a)) ''in'') =
     (''a'', ''.mp3'')"
  "splitext (relpath colliding_env (path (info_of colliding_env ''in/a.wav'' take_b)) ''in'') =
     (''a'', ''.wav'')"
  by (simp_all add: colliding_env_def example_env_def info_of_def splitext_def rfind_def upt_rec)

lemma colliding_first:
  "process_file colliding_env CHUNK_SIZE_MS (info_of colliding_env ''in/a.mp3'' take_a) 1 {}
     ''in'' ''out'' =
     ([Gain ''in/a.mp3'' (Finite 10),
       Export ''out/a.mp3'' (take_a\<lparr>seg_dBFS := Finite (- 20)\<rparr>) (0, 60000)], None)"
proof -
  have s: "md5 (info_of colliding_env ''in/a.mp3'' take_a) \<notin> {}" by simp
  show ?thesis
    unfolding process_file_decoded[OF s colliding_decoded(1)] colliding_processed
      colliding_gain colliding_chunks colliding_base
    by (simp add: out_path_of_def path_join_def take_a_def info_of_def)
qed

lemma colliding_second:
  "process_file colliding_env CHUNK_SIZE_MS (info_of colliding_env ''in/a.wav'' take_b) 1 {}
     ''in'' ''out'' =
     ([Gain ''in/a.wav'' (Finite 5),
       Export ''out/a.mp3'' (take_b\<lparr>seg_dBFS := Finite (- 20)\<rparr>) (0, 30000)], None)"
proof -
  have s: "md5 (info_of colliding_env ''in/a.wav'' take_b) \<notin> {}" by simp
  show ?thesis
    unfolding process_file_decoded[OF s colliding_decoded(2)] colliding_processed
      colliding_gain colliding_chunks colliding_base
    by (simp add: out_path_of_def path_join_def take_b_def info_of_def)
qed

lemma colliding_all:
  "process_all colliding_env CHUNK_SIZE_MS 1 {} ''in'' ''out''
     [info_of colliding_env ''in/a.mp3'' take_a, info_of colliding_env ''in/a.wav'' take_b] =
     ([Gain ''in/a.mp3'' (Finite 10),
       Export ''out/a.mp3'' (take_a\<lparr>seg_dBFS := Finite (- 20)\<rparr>) (0, 60000),
       Gain ''in/a.wav'' (Finite 5),
       Export ''out/a.mp3'' (take_b\<lparr>seg_dBFS := Finite (- 20)\<rparr>) (0, 30000)], None)"
  using process_all_two[OF colliding_first colliding_second] by simp


lemma silent_scan:
  "analyze_directory silent_env ''in'' = ([info_of silent_env ''in/s.wav'' silence], [])"
  by (simp add: silent_env_def analyze_directory_def example_env_def info_of_def
      compute_md5_def SUPPORTED_EXTS_def endswith_def lower_def lower_char_def path_join_def
      Let_def)

lemma silent_decoded:
  "from_file silent_env Process (path (info_of silent_env ''in/s.wav'' silence)) = Some silence"
  by (simp add: silent_env_def example_env_def info_of_def)

lemma silent_converted: "convert_channels silent_env silence 1 = silence"
  by (simp add: convert_channels_def silence_def)

lemma silent_chunks:
  "split_into_chunks CHUNK_SIZE_MS (seg_len (apply_gain silent_env silence PosInf)) = [(0, 60000)]"
proof -
  have l: "60000 \<le> CHUNK_SIZE_MS"
    by (simp add: CHUNK_SIZE_MS_def MAX_DURATION_MS_def MARGIN_MS_def)
  have "seg_len (apply_gain silent_env silence PosInf) = 60000"
    by (simp add: silent_env_def example_env_def silence_def)
  then show ?thesis using split_single[of 60000 CHUNK_SIZE_MS] l by simp
qed

lemma silent_base:
  "splitext (relpath silent_env (path (info_of silent_env ''in/s.wav'' silence)) ''in'') =
     (''s'', ''.wav'')"
  by (simp add: silent_env_def example_env_def info_of_def splitext_def rfind_def upt_rec)

lemma silent_gained: "apply_gain silent_env silence PosInf = silence"
  by (simp add: silent_env_def example_env_def silence_def)


lemma book_scan:
  "analyze_directory book_env ''in'' =
     ([info_of book_env ''in/book/long.WAV'' book_long,
       info_of book_env ''in/book/short.mp3'' book_short], [])"
  by (simp add: book_env_def analyze_directory_def example_env_def info_of_def
      compute_md5_def SUPPORTED_EXTS_def endswith_def lower_def lower_char_def path_join_def
      Let_def)

lemma book_decoded:
  "from_file book_env Process (path (info_of book_env ''in/book/long.WAV'' book_long)) =
     Some book_long"
  "from_file book_env Process (path (info_of book_env ''in/book/short.mp3'' book_short)) =
     Some book_short"
  by (simp_all add: book_env_def example_env_def info_of_def)

lemma book_converted:
  "convert_channels book_env book_long 2 = book_long"
  "convert_channels book_env book_short 2 = book_short"
  by (simp_all add: convert_channels_def book_long_def book_short_def)

lemma book_processed:
  "processed book_env book_long 2 = book_long\<lparr>seg_dBFS := Finite (- 20)\<rparr>"
  "processed book_env book_short 2 = book_short"
  by (simp_all add: processed_def book_env_def example_env_def convert_channels_def
      gain_for_def TARGET_RMS_DBFS_def book_long_def book_short_def)

lemma book_chunks:
  "split_into_chunks CHUNK_SIZE_MS (seg_len (book_long\<lparr>seg_dBFS := Finite (- 20)\<rparr>)) =
     [(0, 7198000), (7198000, 9000000)]"
  "split_into_chunks CHUNK_SIZE_MS (seg_len book_short) = [(0, 1800000)]"
proof -
  have "split_into_chunks CHUNK_SIZE_MS 9000000 = [(0, 7198000), (7198000, 9000000)]"
    by (simp add: CHUNK_SIZE_MS_def MAX_DURATION_MS_def MARGIN_MS_def
        split_into_chunks_def slice_ms_def upt_rec)
  then show "split_into_chunks CHUNK_SIZE_MS (seg_len (book_long\<lparr>seg_dBFS := Finite (- 20)\<rparr>)) =
      [(0, 7198000), (7198000, 9000000)]"
    by (simp add: book_long_def)
  have l: "1800000 \<le> CHUNK_SIZE_MS"
    by (simp add: CHUNK_SIZE_MS_def MAX_DURATION_MS_def MARGIN_MS_def)
  show "split_into_chunks CHUNK_SIZE_MS (seg_len book_short) = [(0, 1800000)]"
    using split_single[of 1800000 CHUNK_SIZE_MS] l by (simp add: book_short_def)
qed

lemma book_base:
  "splitext (relpath book_env (path (info_of book_env ''in/book/long.WAV'' book_long)) ''in'') =
     (''book/long'', ''.WAV'')"
  "splitext (relpath book_env (path (info_of book_env ''in/book/short.mp3'' book_short)) ''in'') =
     (''book/short'', ''.mp3'')"
  by (simp_all add: book_env_def example_env_def info_of_def splitext_def rfind_def upt_rec)

section \<open>The claims\<close>

subsection \<open>C2: the segmenter's contract\<close>

text \<open>
  C2, as stated, asks for exactly one segment whenever the duration is at most the
  segment size, for every duration from zero on. At duration zero the chunk count
  \<open>ceil(0 / c)\<close> is zero and the generator yields nothing: no segment, and no last
  segment whose end could equal the duration.
\<close>

theorem segmenter_zero_duration_counterexample:
  "0 < CHUNK_SIZE_MS \<and> (0::nat) \<le> CHUNK_SIZE_MS \<and>
   split_into_chunks CHUNK_SIZE_MS 0 = [] \<and>
   length (split_into_chunks CHUNK_SIZE_MS 0) \<noteq> 1"
  by (simp add: split_zero CHUNK_SIZE_MS_def MAX_DURATION_MS_def MARGIN_MS_def)

text \<open>
  C2, amended: for every duration and every positive segment size the segments are
  contiguous, non-overlapping, non-empty, at most the segment size long and cover
  \<open>[0, duration_ms)\<close> exactly; for a positive duration there is a last segment and it
  ends at the duration exactly, and there is exactly one segment, the whole range, when
  the duration is at most the segment size; for duration zero the sequence is empty.
\<close>

theorem segmenter_contract:
  assumes "0 < c"
  shows "tiles c 0 d (split_into_chunks c d) \<and>
         (if d = 0 then split_into_chunks c d = []
          else split_into_chunks c d \<noteq> [] \<and>
               snd (last (split_into_chunks c d)) = d \<and>
               (d \<le> c \<longrightarrow> split_into_chunks c d = [(0, d)]))"
proof (cases "d = 0")
  case True
  then show ?thesis using split_tiles[OF assms, of d] by (simp add: split_zero)
next
  case False
  then have d: "0 < d" by simp
  show ?thesis
    using False split_tiles[OF assms, of d] split_last_end[OF assms d] split_single[OF d]
    by simp
qed

theorem segmenter_contract_witness:
  "0 < CHUNK_SIZE_MS \<and>
   tiles CHUNK_SIZE_MS 0 9000000 (split_into_chunks CHUNK_SIZE_MS 9000000) \<and>
   snd (last (split_into_chunks CHUNK_SIZE_MS 9000000)) = 9000000 \<and>
   split_into_chunks CHUNK_SIZE_MS 9000000 = [(0, 7198000), (7198000, 9000000)] \<and>
   split_into_chunks CHUNK_SIZE_MS 1800000 = [(0, 1800000)] \<and>
   split_into_chunks CHUNK_SIZE_MS 0 = []"
proof -
  have c: "0 < CHUNK_SIZE_MS"
    by (simp add: CHUNK_SIZE_MS_def MAX_DURATION_MS_def MARGIN_MS_def)
  have two: "split_into_chunks CHUNK_SIZE_MS 9000000 = [(0, 7198000), (7198000, 9000000)]"
    by (simp add: CHUNK_SIZE_MS_def MAX_DURATION_MS_def MARGIN_MS_def
        split_into_chunks_def slice_ms_def upt_rec)
  have le: "(1800000::nat) \<le> CHUNK_SIZE_MS"
    by (simp add: CHUNK_SIZE_MS_def MAX_DURATION_MS_def MARGIN_MS_def)
  show ?thesis
    using c two le segmenter_contract[OF c, of 9000000] segmenter_contract[OF c, of 1800000]
      segmenter_contract[OF c, of 0]
    by simp
qed

subsection \<open>C10: the two segmentation loops agree\<close>

text \<open>
  C10: for every positive duration and every positive chunk size, the ceil-count loop of
  \<open>split_into_chunks\<close> and the conditional stride loop of \<open>acx.py\<close> cut the same ordered
  list of segments.
\<close>

theorem split_implementations_agree:
  assumes "0 < d" "0 < c"
  shows "split_into_chunks c d = split_segments c d"
  using assms by (rule split_equiv)

theorem split_implementations_agree_witness:
  "(0::nat) < 9000000 \<and> 0 < MAX_DURATION_MS \<and>
   split_into_chunks MAX_DURATION_MS 9000000 = split_segments MAX_DURATION_MS 9000000 \<and>
   split_segments MAX_DURATION_MS 9000000 = [(0, 7200000), (7200000, 9000000)]"
proof -
  have c: "0 < MAX_DURATION_MS" by (simp add: MAX_DURATION_MS_def)
  have d: "(0::nat) < 9000000" by simp
  have "split_segments MAX_DURATION_MS 9000000 = [(0, 7200000), (7200000, 9000000)]"
    by (simp add: MAX_DURATION_MS_def split_segments_def slice_ms_def range_step.simps)
  then show ?thesis using c split_implementations_agree[OF d c] by simp
qed

subsection \<open>C1: one record of a duplicate group is kept\<close>

text \<open>
  C1 asks that of three byte-identical records the first is processed and exported and the
  other two are skipped. The main block puts the digest of every later member of a group
  into \<open>skip_md5\<close>, and \<open>process_file\<close> skips by digest: the first member has the same
  digest, so on \<open>triple_meta\<close> all three records are skipped and nothing is exported,
  against the comment "keep first, skip the rest" of the loop that fills the set.
\<close>

theorem duplicate_group_all_skipped:
  "process_batch E c triple_meta input_root output_root =
     ([Skipped ''in/a.mp3'', Skipped ''in/b.mp3'', Skipped ''in/c.mp3''], None) \<and>
   exported_paths (fst (process_batch E c triple_meta input_root output_root)) = []"
  by (simp add: triple_meta_def process_batch_def report_duplicates_def group_by_md5_def
      process_file_def exported_paths_def List.map_filter_def)

subsection \<open>C3: the channel policy\<close>

text \<open>
  C3 asks that the target channel count is computed from the surviving records only. The
  main block passes the whole of \<open>meta\<close> to \<open>decide_target_channels\<close>. On
  \<open>channel_meta\<close> the only stereo record is a later member of a duplicate group, the one
  surviving record is mono, and the target is 2.
\<close>

theorem channel_policy_counterexample:
  "skip_groups channel_meta {} (report_duplicates channel_meta) = Inr {''d2''} \<and>
   map path (survivors {''d2''} channel_meta) = [''in/a.mp3''] \<and>
   map channels (survivors {''d2''} channel_meta) = [1] \<and>
   decide_target_channels channel_meta = 2"
  by (simp add: channel_meta_def report_duplicates_def group_by_md5_def survivors_def
      decide_target_channels_def)

text \<open>
  C3, amended: the target channel count is computed from every scanned record, skipped
  duplicates included: it is 2 if and only if at least one scanned record has more than one
  channel, and 1 otherwise; that value is what every file of the batch is processed with.
\<close>

theorem channel_policy_all_records:
  "(decide_target_channels meta = 2 \<longleftrightarrow> (\<exists>m\<in>set meta. 1 < channels m)) \<and>
   (decide_target_channels meta = 1 \<longleftrightarrow> (\<forall>m\<in>set meta. channels m \<le> 1)) \<and>
   (skip_groups meta {} (report_duplicates meta) = Inr skip_md5 \<longrightarrow>
      process_batch E c meta input_root output_root =
        process_all E c (decide_target_channels meta) skip_md5 input_root output_root meta)"
proof -
  have all: "(\<forall>m\<in>set meta. channels m \<le> 1) \<longleftrightarrow> \<not> (\<exists>m\<in>set meta. 1 < channels m)"
    by (meson leD not_le_imp_less)
  have two: "decide_target_channels meta = 2 \<longleftrightarrow> (\<exists>m\<in>set meta. 1 < channels m)"
    by (simp add: decide_target_channels_def list_ex_iff)
  have one: "decide_target_channels meta = 1 \<longleftrightarrow> (\<forall>m\<in>set meta. channels m \<le> 1)"
    unfolding all by (simp add: decide_target_channels_def list_ex_iff)
  have batch: "skip_groups meta {} (report_duplicates meta) = Inr skip_md5 \<longrightarrow>
      process_batch E c meta input_root output_root =
        process_all E c (decide_target_channels meta) skip_md5 input_root output_root meta"
    by (simp add: process_batch_def)
  show ?thesis using two one batch by (intro conjI)
qed

theorem channel_policy_all_records_witness:
  "decide_target_channels channel_meta = 2 \<and>
   skip_groups channel_meta {} (report_duplicates channel_meta) = Inr {''d2''} \<and>
   process_batch silent_env CHUNK_SIZE_MS channel_meta ''in'' ''out'' =
     process_all silent_env CHUNK_SIZE_MS 2 {''d2''} ''in'' ''out'' channel_meta"
proof -
  have s: "skip_groups channel_meta {} (report_duplicates channel_meta) = Inr {''d2''}"
    by (simp add: channel_meta_def report_duplicates_def group_by_md5_def)
  have "\<exists>m\<in>set channel_meta. 1 < channels m"
    by (simp add: channel_meta_def)
  then show ?thesis
    using s channel_policy_all_records[of channel_meta "{''d2''}" silent_env CHUNK_SIZE_MS
        "''in''" "''out''"]
    by simp
qed

subsection \<open>C4: a decode failure stops only its own file\<close>

text \<open>
  C4 asks that a decode failure skips only the file it hits, at every stage. The scan
  catches the decoder's exception; \<open>process_file\<close> decodes again with no handler. In
  \<open>vanishing_env\<close> the first of two files decodes in the scan and not afterwards: the run
  ends with the exception and the second file is never processed.
\<close>

theorem decode_failure_aborts_batch:
  "analyze_directory vanishing_env ''in'' =
     ([\<lparr>path = ''in/a.mp3'', duration = 60000, channels = 1, dBFS = Finite (- 30),
        md5 = ''aaaa''\<rparr>,
       \<lparr>path = ''in/b.mp3'', duration = 30000, channels = 1, dBFS = Finite (- 25),
        md5 = ''bbbb''\<rparr>], []) \<and>
   main vanishing_env c ''in'' ''out'' = ([], Some (DecodeError ''in/a.mp3'')) \<and>
   exported_paths (fst (main vanishing_env c ''in'' ''out'')) = []"
  by (simp add: vanishing_env_def take_a_def take_b_def main_def analyze_directory_def example_env_def
      process_batch_def report_duplicates_def group_by_md5_def decide_target_channels_def
      process_file_def compute_md5_def SUPPORTED_EXTS_def endswith_def lower_def
      lower_char_def path_join_def exported_paths_def List.map_filter_def)

subsection \<open>C8: duplicate resolution is deterministic\<close>

text \<open>
  C8: the duplicate groups are a function of the scanned list alone: the digests in the
  order of their first appearance, each with the paths of its records in scan order, the
  groups of one record left out. Two runs over the same list in the same order therefore
  report the same groups, build the same skip set and leave the same records.
\<close>

theorem duplicate_resolution_deterministic:
  "report_duplicates meta =
     filter (\<lambda>grp. 1 < length grp)
       (map (\<lambda>d. map path (filter (\<lambda>m. md5 m = d) meta))
          (rev (remdups (rev (map md5 meta))))) \<and>
   (meta' = meta \<longrightarrow>
      report_duplicates meta' = report_duplicates meta \<and>
      skip_groups meta' {} (report_duplicates meta') =
        skip_groups meta {} (report_duplicates meta) \<and>
      survivors skip_md5 meta' = survivors skip_md5 meta \<and>
      process_batch E c meta' input_root output_root =
        process_batch E c meta input_root output_root)"
  using report_duplicates_closed[of meta] by simp

theorem duplicate_resolution_deterministic_witness:
  "report_duplicates channel_meta = [[''in/b.mp3'', ''in/c.wav'']] \<and>
   report_duplicates triple_meta = [[''in/a.mp3'', ''in/b.mp3'', ''in/c.mp3'']] \<and>
   map (\<lambda>d. map path (filter (\<lambda>m. md5 m = d) channel_meta))
     (rev (remdups (rev (map md5 channel_meta)))) =
     [[''in/a.mp3''], [''in/b.mp3'', ''in/c.wav'']]"
proof -
  have g: "map (\<lambda>d. map path (filter (\<lambda>m. md5 m = d) channel_meta))
       (rev (remdups (rev (map md5 channel_meta)))) =
     [[''in/a.mp3''], [''in/b.mp3'', ''in/c.wav'']]"
    by (simp add: channel_meta_def)
  have t: "report_duplicates triple_meta = [[''in/a.mp3'', ''in/b.mp3'', ''in/c.mp3'']]"
    by (simp add: triple_meta_def report_duplicates_def group_by_md5_def)
  show ?thesis
    using g t
      duplicate_resolution_deterministic[of channel_meta channel_meta "{}" silent_env
        CHUNK_SIZE_MS "''in''" "''out''"]
    by simp
qed

subsection \<open>C5: two inputs that resolve to one output path\<close>

text \<open>
  C5 asks that the run fails before writing when two inputs resolve to the same output
  path. Nothing in the scripts compares output paths. In \<open>colliding_env\<close> the files
  \<open>a.mp3\<close> and \<open>a.wav\<close> both resolve to \<open>out/a.mp3\<close>: the run ends without an error, having
  exported to that path twice.
\<close>

theorem colliding_outputs_counterexample:
  "main colliding_env CHUNK_SIZE_MS ''in'' ''out'' =
     ([Gain ''in/a.mp3'' (Finite 10),
       Export ''out/a.mp3'' (take_a\<lparr>seg_dBFS := Finite (- 20)\<rparr>) (0, 60000),
       Gain ''in/a.wav'' (Finite 5),
       Export ''out/a.mp3'' (take_b\<lparr>seg_dBFS := Finite (- 20)\<rparr>) (0, 30000)],
      None)"
proof -
  let ?meta = "[info_of colliding_env ''in/a.mp3'' take_a, info_of colliding_env ''in/a.wav'' take_b]"
  have dup: "report_duplicates ?meta = []"
    by (simp add: report_duplicates_def group_by_md5_def info_of_def compute_md5_def
        colliding_env_def example_env_def take_a_def take_b_def)
  have tgt: "decide_target_channels ?meta = 1"
    by (simp add: decide_target_channels_def info_of_def take_a_def take_b_def)
  have batch: "process_batch colliding_env CHUNK_SIZE_MS ?meta ''in'' ''out'' =
      process_all colliding_env CHUNK_SIZE_MS 1 {} ''in'' ''out'' ?meta"
    unfolding process_batch_def dup tgt by simp
  show ?thesis by (simp add: main_def colliding_scan batch[unfolded colliding_all])
qed

text \<open>
  C5, amended: when two inputs that are both processed resolve to the same base path and
  are cut into the same number of segments, the run raises no error: it exports the
  chunks of both to the same output paths, in scan order, and each of these paths is left
  holding the chunk of the later file.
\<close>

theorem colliding_outputs_overwrite:
  assumes "md5 m1 \<notin> skip_md5" and "md5 m2 \<notin> skip_md5"
    and "from_file E Process (path m1) = Some a1"
    and "from_file E Process (path m2) = Some a2"
    and "fst (splitext (relpath E (path m1) input_root)) =
         fst (splitext (relpath E (path m2) input_root))"
    and "length (split_into_chunks c (seg_len (processed E a1 t))) =
         length (split_into_chunks c (seg_len (processed E a2 t)))"
  shows "process_all E c t skip_md5 input_root output_root [m1, m2] =
           (fst (process_file E c m1 t skip_md5 input_root output_root) @
            fst (process_file E c m2 t skip_md5 input_root output_root), None) \<and>
         exported_paths (fst (process_file E c m1 t skip_md5 input_root output_root)) =
           exported_paths (fst (process_file E c m2 t skip_md5 input_root output_root)) \<and>
         (\<forall>p\<in>set (exported_paths (fst (process_file E c m2 t skip_md5 input_root output_root))).
            final_file (fst (process_all E c t skip_md5 input_root output_root [m1, m2])) p =
            final_file (fst (process_file E c m2 t skip_md5 input_root output_root)) p)"
proof -
  let ?ev1 = "fst (process_file E c m1 t skip_md5 input_root output_root)"
  let ?ev2 = "fst (process_file E c m2 t skip_md5 input_root output_root)"
  have p1: "process_file E c m1 t skip_md5 input_root output_root = (?ev1, None)"
    using assms(1,3) by (rule process_file_decoded_ok)
  have p2: "process_file E c m2 t skip_md5 input_root output_root = (?ev2, None)"
    using assms(2,4) by (rule process_file_decoded_ok)
  have all: "process_all E c t skip_md5 input_root output_root [m1, m2] = (?ev1 @ ?ev2, None)"
    using p1 p2 by (rule process_all_two)
  have same: "exported_paths ?ev1 = exported_paths ?ev2"
    unfolding process_file_exported_paths[OF assms(1,3)]
      process_file_exported_paths[OF assms(2,4)] assms(5) assms(6) ..
  have "final_file (?ev1 @ ?ev2) p = final_file ?ev2 p" if "p \<in> set (exported_paths ?ev2)" for p
    using exports_to_nonempty[OF that] by (simp add: final_file_append)
  then show ?thesis unfolding all fst_conv using same by simp
qed

theorem colliding_outputs_overwrite_witness:
  "process_all colliding_env CHUNK_SIZE_MS 1 {} ''in'' ''out''
     [info_of colliding_env ''in/a.mp3'' take_a, info_of colliding_env ''in/a.wav'' take_b] =
     ([Gain ''in/a.mp3'' (Finite 10),
       Export ''out/a.mp3'' (take_a\<lparr>seg_dBFS := Finite (- 20)\<rparr>) (0, 60000),
       Gain ''in/a.wav'' (Finite 5),
       Export ''out/a.mp3'' (take_b\<lparr>seg_dBFS := Finite (- 20)\<rparr>) (0, 30000)],
      None) \<and>
   exported_paths (fst (process_file colliding_env CHUNK_SIZE_MS
     (info_of colliding_env ''in/a.wav'' take_b) 1 {} ''in'' ''out'')) = [''out/a.mp3''] \<and>
   final_file (fst (process_all colliding_env CHUNK_SIZE_MS 1 {} ''in'' ''out''
     [info_of colliding_env ''in/a.mp3'' take_a, info_of colliding_env ''in/a.wav'' take_b]))
     ''out/a.mp3'' = Some (take_b\<lparr>seg_dBFS := Finite (- 20)\<rparr>, (0, 30000))"
proof -
  let ?m1 = "info_of colliding_env ''in/a.mp3'' take_a"
  let ?m2 = "info_of colliding_env ''in/a.wav'' take_b"
  have s1: "md5 ?m1 \<notin> {}" and s2: "md5 ?m2 \<notin> {}" by simp_all
  have bases: "fst (splitext (relpath colliding_env (path ?m1) ''in'')) =
      fst (splitext (relpath colliding_env (path ?m2) ''in''))"
    unfolding colliding_base by simp
  have counts: "length (split_into_chunks CHUNK_SIZE_MS (seg_len (processed colliding_env take_a 1))) =
      length (split_into_chunks CHUNK_SIZE_MS (seg_len (processed colliding_env take_b 1)))"
    unfolding colliding_processed colliding_chunks by simp
  have ep: "exported_paths [Gain ''in/a.wav'' (Finite 5),
        Export ''out/a.mp3'' (take_b\<lparr>seg_dBFS := Finite (- 20)\<rparr>) (0, 30000)] = [''out/a.mp3'']"
    by (simp add: exported_paths_def List.map_filter_def)
  have fin: "final_file [Gain ''in/a.wav'' (Finite 5),
        Export ''out/a.mp3'' (take_b\<lparr>seg_dBFS := Finite (- 20)\<rparr>) (0, 30000)] ''out/a.mp3'' =
      Some (take_b\<lparr>seg_dBFS := Finite (- 20)\<rparr>, (0, 30000))"
    by (simp add: final_file_def)
  note ow = colliding_outputs_overwrite[OF s1 s2 colliding_decoded bases counts, of "''out''",
      unfolded colliding_first colliding_second fst_conv ep]
  have mem: "''out/a.mp3'' \<in> set [''out/a.mp3'']" by simp
  from ow mem have "final_file (fst (process_all colliding_env CHUNK_SIZE_MS 1 {} ''in'' ''out''
      [?m1, ?m2])) ''out/a.mp3'' =
      final_file [Gain ''in/a.wav'' (Finite 5),
        Export ''out/a.mp3'' (take_b\<lparr>seg_dBFS := Finite (- 20)\<rparr>) (0, 30000)] ''out/a.mp3''"
    by blast
  then have c3: "final_file (fst (process_all colliding_env CHUNK_SIZE_MS 1 {} ''in'' ''out''
      [?m1, ?m2])) ''out/a.mp3'' = Some (take_b\<lparr>seg_dBFS := Finite (- 20)\<rparr>, (0, 30000))"
    unfolding fin .
  have c2: "exported_paths (fst (process_file colliding_env CHUNK_SIZE_MS ?m2 1 {} ''in'' ''out'')) =
      [''out/a.mp3'']"
    unfolding colliding_second fst_conv by (rule ep)
  show ?thesis using colliding_all c2 c3 by (intro conjI)
qed

subsection \<open>C6: the gain of a silent buffer\<close>

text \<open>
  C6 asks that a buffer measured at minus infinity gets zero gain and a flag. The gain is
  \<open>TARGET_RMS_DBFS - audio.dBFS\<close> with no special case: for the silent file of
  \<open>silent_env\<close> it is plus infinity, which is what \<open>apply_gain\<close> is called with, and the
  run records nothing else about the file.
\<close>

theorem silent_gain_counterexample:
  "seg_dBFS silence = NegInf \<and>
   main silent_env CHUNK_SIZE_MS ''in'' ''out'' =
     ([Gain ''in/s.wav'' PosInf, Export ''out/s.mp3'' silence (0, 60000)], None)"
proof -
  let ?meta = "[info_of silent_env ''in/s.wav'' silence]"
  have s: "md5 (info_of silent_env ''in/s.wav'' silence) \<notin> {}" by simp
  have g: "gain_for silence = PosInf"
    by (simp add: gain_for_def TARGET_RMS_DBFS_def silence_def)
  have pr: "processed silent_env silence 1 = silence"
    unfolding processed_def silent_converted g by (rule silent_gained)
  have ch: "split_into_chunks CHUNK_SIZE_MS (seg_len silence) = [(0, 60000)]"
    using silent_chunks unfolding silent_gained .
  have f: "process_file silent_env CHUNK_SIZE_MS (info_of silent_env ''in/s.wav'' silence) 1 {}
      ''in'' ''out'' =
      ([Gain ''in/s.wav'' PosInf, Export ''out/s.mp3'' silence (0, 60000)], None)"
    unfolding process_file_decoded[OF s silent_decoded] pr silent_converted g ch silent_base
    by (simp add: out_path_of_def path_join_def silence_def info_of_def)
  have dup: "report_duplicates ?meta = []"
    by (simp add: report_duplicates_def group_by_md5_def)
  have tgt: "decide_target_channels ?meta = 1"
    by (simp add: decide_target_channels_def info_of_def silence_def)
  have batch: "process_batch silent_env CHUNK_SIZE_MS ?meta ''in'' ''out'' =
      ([Gain ''in/s.wav'' PosInf, Export ''out/s.mp3'' silence (0, 60000)], None)"
    unfolding process_batch_def dup tgt by (simp del: One_nat_def add: f)
  show ?thesis by (simp add: main_def silent_scan batch) (simp add: silence_def)
qed

text \<open>
  C6, amended: for every buffer whose measured loudness, after the channel conversion,
  is minus infinity, the gain computation does not fail and yields plus infinity, the
  difference of the target and the measurement; \<open>apply_gain\<close> is called with that gain,
  the result is segmented and exported like any other, and no flag is recorded.
\<close>

theorem silent_gain_is_infinite:
  assumes "md5 info \<notin> skip_md5"
    and "from_file E Process (path info) = Some audio0"
    and "seg_dBFS (convert_channels E audio0 target_ch) = NegInf"
  shows "gain_for (convert_channels E audio0 target_ch) = PosInf \<and>
         processed E audio0 target_ch = apply_gain E (convert_channels E audio0 target_ch) PosInf \<and>
         process_file E c info target_ch skip_md5 input_root output_root =
           ((if seg_channels audio0 \<noteq> target_ch then [Channels (path info) target_ch] else [])
              @ [Gain (path info) PosInf]
              @ export_chunks output_root (fst (splitext (relpath E (path info) input_root)))
                  (processed E audio0 target_ch)
                  (length (split_into_chunks c (seg_len (processed E audio0 target_ch))))
                  1
                  (split_into_chunks c (seg_len (processed E audio0 target_ch))),
            None)"
proof -
  have g: "gain_for (convert_channels E audio0 target_ch) = PosInf"
    using assms(3) by (simp add: gain_for_def TARGET_RMS_DBFS_def)
  then have "processed E audio0 target_ch = apply_gain E (convert_channels E audio0 target_ch) PosInf"
    by (simp add: processed_def)
  then show ?thesis using g process_file_decoded[OF assms(1,2), of c target_ch input_root output_root]
    by simp
qed

theorem silent_gain_is_infinite_witness:
  "seg_dBFS (convert_channels silent_env silence 1) = NegInf \<and>
   gain_for (convert_channels silent_env silence 1) = PosInf \<and>
   fst (process_file silent_env CHUNK_SIZE_MS (info_of silent_env ''in/s.wav'' silence) 1 {}
     ''in'' ''out'') =
     [Gain ''in/s.wav'' PosInf, Export ''out/s.mp3'' silence (0, 60000)]"
proof -
  have s: "md5 (info_of silent_env ''in/s.wav'' silence) \<notin> {}" by simp
  have n: "seg_dBFS (convert_channels silent_env silence 1) = NegInf"
    unfolding silent_converted by (simp add: silence_def)
  note w = silent_gain_is_infinite[OF s silent_decoded n, of CHUNK_SIZE_MS "''in''" "''out''"]
  from w have pr: "processed silent_env silence 1 = silence"
    unfolding silent_converted silent_gained by simp
  from w have "fst (process_file silent_env CHUNK_SIZE_MS (info_of silent_env ''in/s.wav'' silence)
      1 {} ''in'' ''out'') =
      [Gain ''in/s.wav'' PosInf, Export ''out/s.mp3'' silence (0, 60000)]"
    unfolding pr silent_chunks[unfolded silent_gained] silent_base
    by (simp add: out_path_of_def path_join_def silence_def info_of_def)
  then show ?thesis using n w by simp
qed

subsection \<open>C9: the gain of a buffer of finite loudness\<close>

text \<open>
  C9: for a buffer whose loudness, measured after the channel conversion, is finite, the
  gain handed to \<open>apply_gain\<close> is the target minus the measurement; a buffer already at
  the target gets a gain of zero.
\<close>

theorem gain_is_target_minus_measured:
  assumes "md5 info \<notin> skip_md5"
    and "from_file E Process (path info) = Some audio0"
    and "seg_dBFS (convert_channels E audio0 target_ch) = Finite x"
  shows "gain_for (convert_channels E audio0 target_ch) = Finite (- 20 - x) \<and>
         processed E audio0 target_ch =
           apply_gain E (convert_channels E audio0 target_ch) (Finite (- 20 - x)) \<and>
         Gain (path info) (Finite (- 20 - x)) \<in>
           set (fst (process_file E c info target_ch skip_md5 input_root output_root)) \<and>
         (Finite x = TARGET_RMS_DBFS \<longrightarrow> gain_for (convert_channels E audio0 target_ch) = Finite 0)"
proof -
  have g: "gain_for (convert_channels E audio0 target_ch) = Finite (- 20 - x)"
    using assms(3) by (simp add: gain_for_def TARGET_RMS_DBFS_def)
  then have p: "processed E audio0 target_ch =
      apply_gain E (convert_channels E audio0 target_ch) (Finite (- 20 - x))"
    by (simp add: processed_def)
  have t: "Gain (path info) (Finite (- 20 - x)) \<in>
      set (fst (process_file E c info target_ch skip_md5 input_root output_root))"
    unfolding process_file_decoded[OF assms(1,2)] g by simp
  have z: "Finite x = TARGET_RMS_DBFS \<longrightarrow> gain_for (convert_channels E audio0 target_ch) = Finite 0"
    unfolding g by (simp add: TARGET_RMS_DBFS_def)
  show ?thesis using g p t z by (intro conjI)
qed

theorem gain_is_target_minus_measured_witness:
  "seg_dBFS (convert_channels book_env book_long 2) = Finite (- 15) \<and>
   gain_for (convert_channels book_env book_long 2) = Finite (- 5) \<and>
   Gain ''in/book/long.WAV'' (Finite (- 5)) \<in>
     set (fst (process_file book_env CHUNK_SIZE_MS
       (info_of book_env ''in/book/long.WAV'' book_long) 2 {} ''in'' ''out'')) \<and>
   seg_dBFS (convert_channels book_env book_short 2) = TARGET_RMS_DBFS \<and>
   gain_for (convert_channels book_env book_short 2) = Finite 0"
proof -
  have s1: "md5 (info_of book_env ''in/book/long.WAV'' book_long) \<notin> {}"
    and s2: "md5 (info_of book_env ''in/book/short.mp3'' book_short) \<notin> {}" by simp_all
  have m1: "seg_dBFS (convert_channels book_env book_long 2) = Finite (- 15)"
    unfolding book_converted by (simp add: book_long_def)
  have m2: "seg_dBFS (convert_channels book_env book_short 2) = Finite (- 20)"
    unfolding book_converted by (simp add: book_short_def)
  note w1 = gain_is_target_minus_measured[OF s1 book_decoded(1) m1, of CHUNK_SIZE_MS "''in''" "''out''"]
  note w2 = gain_is_target_minus_measured[OF s2 book_decoded(2) m2, of CHUNK_SIZE_MS "''in''" "''out''"]
  have p: "path (info_of book_env ''in/book/long.WAV'' book_long) = ''in/book/long.WAV''"
    by (simp add: info_of_def)
  show ?thesis using w1 w2 m1 m2 by (simp add: p TARGET_RMS_DBFS_def)
qed

subsection \<open>C7: export names\<close>

text \<open>
  C7: a file that is processed is exported under the output root at its path relative to
  the input root, with the extension \<open>splitext\<close> splits off replaced by \<open>.mp3\<close>; the
  names carry \<open>_part1\<close>, \<open>_part2\<close>, ... in order when the file has more than one segment
  and no suffix when it has one. At 119 minutes 58 seconds per segment a file of 150
  minutes gives two parts and a file of 30 minutes one unsuffixed output.
\<close>

theorem export_naming:
  assumes "md5 info \<notin> skip_md5"
    and "from_file E Process (path info) = Some audio0"
  shows "exported_paths (fst (process_file E c info target_ch skip_md5 input_root output_root)) =
           map (\<lambda>idx. path_join output_root
                  (fst (splitext (relpath E (path info) input_root))
                   @ (if 1 < length (split_into_chunks c (seg_len (processed E audio0 target_ch)))
                      then ''_part'' @ str_of_nat idx else [])
                   @ ''.mp3''))
             [1..<Suc (length (split_into_chunks c (seg_len (processed E audio0 target_ch))))]"
  unfolding process_file_exported_paths[OF assms]
  by (simp add: out_path_of_def)

theorem export_naming_witness:
  "exported_paths (fst (process_file book_env CHUNK_SIZE_MS
     (info_of book_env ''in/book/long.WAV'' book_long) 2 {} ''in'' ''out'')) =
     [''out/book/long_part1.mp3'', ''out/book/long_part2.mp3''] \<and>
   exported_paths (fst (process_file book_env CHUNK_SIZE_MS
     (info_of book_env ''in/book/short.mp3'' book_short) 2 {} ''in'' ''out'')) =
     [''out/book/short.mp3'']"
proof -
  have s1: "md5 (info_of book_env ''in/book/long.WAV'' book_long) \<notin> {}"
    and s2: "md5 (info_of book_env ''in/book/short.mp3'' book_short) \<notin> {}" by simp_all
  have "exported_paths (fst (process_file book_env CHUNK_SIZE_MS
      (info_of book_env ''in/book/long.WAV'' book_long) 2 {} ''in'' ''out'')) =
      [''out/book/long_part1.mp3'', ''out/book/long_part2.mp3'']"
    unfolding export_naming[OF s1 book_decoded(1)] book_processed book_chunks book_base
    by (simp add: upt_rec path_join_def str_of_nat.simps)
  moreover have "exported_paths (fst (process_file book_env CHUNK_SIZE_MS
      (info_of book_env ''in/book/short.mp3'' book_short) 2 {} ''in'' ''out'')) =
      [''out/book/short.mp3'']"
    unfolding export_naming[OF s2 book_decoded(2)] book_processed book_chunks book_base
    by (simp add: upt_rec path_join_def str_of_nat.simps)
  ultimately show ?thesis by (intro conjI)
qed

end
